theory Spec2Isabelle
  imports Complex_Main "HOL-Library.Log_Nat" "HOL-Library.Sublist"
begin

section \<open>Data model (the Mongoose schemas of server.js)\<close>

text \<open>
  Object ids are natural numbers and a \<open>Date\<close> is its number of milliseconds since the
  epoch. A field that a schema leaves optional (\<open>targetDate\<close>, \<open>deadline\<close>,
  \<open>completedAt\<close>, \<open>subsectionId\<close>) is an \<open>option\<close>; \<open>None\<close> is JavaScript's
  null/undefined. The display glyphs (\<open>icon\<close> defaults, achievement icons) are not ASCII
  and carry no logic; an icon is an opaque string here.
\<close>

type_synonym oid = nat
type_synonym date = int

datatype task_kind = Daily | Deadline
datatype priority_level = Low | Medium | High
datatype task_status = Pending | Completed

record user =
  user_id :: oid
  user_name :: string
  email :: string
  password :: string
  points :: int
  streak :: int
  lastActiveDate :: date
  user_createdAt :: date

record section_doc =
  sec_id :: oid
  sec_userId :: oid
  sec_title :: string
  sec_icon :: string
  sec_order :: int
  sec_createdAt :: date

record subsection_doc =
  sub_id :: oid
  sub_sectionId :: oid
  sub_userId :: oid
  sub_title :: string
  sub_order :: int
  sub_createdAt :: date

record task =
  task_id :: oid
  task_userId :: oid
  sectionId :: oid
  subsectionId :: "oid option"
  title :: string
  ttype :: task_kind
  targetDate :: "date option"
  deadline :: "date option"
  priority :: priority_level
  tags :: "string list"
  status :: task_status
  completedAt :: "date option"
  task_createdAt :: date

text \<open>A document of the \<open>Achievement\<close> collection: one unlock of one catalog entry.\<close>

record unlock =
  unl_userId :: oid
  achievementId :: string
  unlockedAt :: date

text \<open>
  The store: one list per collection, in insertion order, and the next fresh object id.
\<close>

record state =
  users :: "user list"
  sections :: "section_doc list"
  subsections :: "subsection_doc list"
  tasks :: "task list"
  achievements :: "unlock list"
  nextId :: oid

text \<open>
  The outcomes of a request that is not a success: 401 from \<open>authMiddleware\<close>, 404, the
  two 400s, and 500 from a handler's \<open>catch\<close>. \<open>TypeError\<close> is the exception that
  reading a field of \<open>null\<close> throws inside \<open>checkAchievements\<close>.
\<close>

datatype error =
  Unauthorized | NotFound | AlreadyCompleted | InvalidCredentials | ServerError | TypeError

subsection \<open>Store operations\<close>

definition findById :: "oid \<Rightarrow> user list \<Rightarrow> user option" where
  "findById i us = find (\<lambda>u. user_id u = i) us"

text \<open>\<open>doc.save()\<close> on a loaded document writes it back under its \<open>_id\<close>.\<close>

definition save_user :: "user \<Rightarrow> user list \<Rightarrow> user list" where
  "save_user u us = map (\<lambda>v. if user_id v = user_id u then u else v) us"

definition save_task :: "task \<Rightarrow> task list \<Rightarrow> task list" where
  "save_task t ts = map (\<lambda>x. if task_id x = task_id t then t else x) ts"

text \<open>\<open>Model.findOneAndDelete(filter)\<close> removes the first document that matches.\<close>

fun deleteFirst :: "('a \<Rightarrow> bool) \<Rightarrow> 'a list \<Rightarrow> 'a list" where
  "deleteFirst P [] = []"
| "deleteFirst P (x # xs) = (if P x then xs else x # deleteFirst P xs)"

definition countDocuments :: "('a \<Rightarrow> bool) \<Rightarrow> 'a list \<Rightarrow> nat" where
  "countDocuments P xs = length (filter P xs)"

section \<open>Achievements\<close>

text \<open>
  A catalog entry. Its \<open>check\<close> closure queries the store, so here it takes the store;
  it yields \<open>None\<close> where the source throws (\<open>u.streak\<close> with \<open>u\<close> null).
\<close>

record achievement =
  ach_id :: string
  ach_title :: string
  ach_desc :: string
  ach_points :: int
  ach_check :: "state \<Rightarrow> oid \<Rightarrow> bool option"

definition completedCount :: "state \<Rightarrow> oid \<Rightarrow> nat" where
  "completedCount st userId =
     countDocuments (\<lambda>t. task_userId t = userId \<and> status t = Completed) (tasks st)"

text \<open>
  The aggregation operator \<open>$lt\<close> compares in BSON order, where null and a missing
  field (both \<open>None\<close> here) sort before every date: an unset \<open>completedAt\<close> is below
  any deadline, and nothing is below an unset deadline.
\<close>

fun bson_lt :: "date option \<Rightarrow> date option \<Rightarrow> bool" where
  "bson_lt _ None = False"
| "bson_lt None (Some d) = True"
| "bson_lt (Some c) (Some d) = (c < d)"

definition earlyCount :: "state \<Rightarrow> oid \<Rightarrow> nat" where
  "earlyCount st userId =
     countDocuments (\<lambda>t. task_userId t = userId \<and> status t = Completed \<and> ttype t = Deadline
                        \<and> bson_lt (completedAt t) (deadline t)) (tasks st)"

definition check_count :: "nat \<Rightarrow> state \<Rightarrow> oid \<Rightarrow> bool option" where
  "check_count n st userId = Some (n \<le> completedCount st userId)"

definition check_early :: "nat \<Rightarrow> state \<Rightarrow> oid \<Rightarrow> bool option" where
  "check_early n st userId = Some (n \<le> earlyCount st userId)"

definition check_streak :: "int \<Rightarrow> state \<Rightarrow> oid \<Rightarrow> bool option" where
  "check_streak n st userId =
     (case findById userId (users st) of None \<Rightarrow> None | Some u \<Rightarrow> Some (n \<le> streak u))"

definition check_points :: "int \<Rightarrow> state \<Rightarrow> oid \<Rightarrow> bool option" where
  "check_points n st userId =
     (case findById userId (users st) of None \<Rightarrow> None | Some u \<Rightarrow> Some (n \<le> points u))"

definition first_task :: achievement where
  "first_task = \<lparr>ach_id = ''first_task'', ach_title = ''First Steps'',
     ach_desc = ''Complete your first task'', ach_points = 50, ach_check = check_count 1\<rparr>"

definition streak_7 :: achievement where
  "streak_7 = \<lparr>ach_id = ''streak_7'', ach_title = ''On Fire'',
     ach_desc = ''7 day streak'', ach_points = 200, ach_check = check_streak 7\<rparr>"

definition tasks_100 :: achievement where
  "tasks_100 = \<lparr>ach_id = ''tasks_100'', ach_title = ''Centurion'',
     ach_desc = ''Complete 100 tasks'', ach_points = 500, ach_check = check_count 100\<rparr>"

definition early_10 :: achievement where
  "early_10 = \<lparr>ach_id = ''early_10'', ach_title = ''Early Bird'',
     ach_desc = ''Complete 10 tasks before deadline'', ach_points = 150,
     ach_check = check_early 10\<rparr>"

definition points_1000 :: achievement where
  "points_1000 = \<lparr>ach_id = ''points_1000'', ach_title = ''Point Master'',
     ach_desc = ''Earn 1000 points'', ach_points = 300, ach_check = check_points 1000\<rparr>"

definition tasks_10 :: achievement where
  "tasks_10 = \<lparr>ach_id = ''tasks_10'', ach_title = ''Getting Started'',
     ach_desc = ''Complete 10 tasks'', ach_points = 100, ach_check = check_count 10\<rparr>"

text \<open>The array \<open>ACHIEVEMENTS\<close>, in the order the source lists it.\<close>

definition ACHIEVEMENTS :: "achievement list" where
  "ACHIEVEMENTS = [first_task, streak_7, tasks_100, early_10, points_1000, tasks_10]"

definition unlocked :: "state \<Rightarrow> oid \<Rightarrow> string \<Rightarrow> bool" where
  "unlocked st userId aid =
     (find (\<lambda>a. unl_userId a = userId \<and> achievementId a = aid) (achievements st) \<noteq> None)"

text \<open>
  The body of the \<open>for\<close> loop of \<open>checkAchievements\<close> for one entry: the new store and
  either the exception, or the entry pushed onto \<open>newAchievements\<close> (if any). The
  unlock record is saved before the user is re-read, so it stays when that read fails.
\<close>

definition checkBody ::
  "achievement \<Rightarrow> state \<Rightarrow> oid \<Rightarrow> date \<Rightarrow> state \<times> (error + (achievement \<times> date) option)" where
  "checkBody ach st userId now =
     (case find (\<lambda>a. unl_userId a = userId \<and> achievementId a = ach_id ach) (achievements st) of
        Some existing \<Rightarrow> (st, Inr None)
      | None \<Rightarrow>
         (case ach_check ach st userId of
            None \<Rightarrow> (st, Inl TypeError)
          | Some False \<Rightarrow> (st, Inr None)
          | Some True \<Rightarrow>
             (let st1 = st\<lparr>achievements := achievements st @
                          [\<lparr>unl_userId = userId, achievementId = ach_id ach, unlockedAt = now\<rparr>]\<rparr>
              in case findById userId (users st1) of
                   None \<Rightarrow> (st1, Inl TypeError)
                 | Some u \<Rightarrow>
                     (st1\<lparr>users := save_user (u\<lparr>points := points u + ach_points ach\<rparr>) (users st1)\<rparr>,
                      Inr (Some (ach, now))))))"

text \<open>
  The loop over a catalog, with \<open>newAchievements\<close> as the accumulator. Every
  \<open>unlockedAt\<close> of one pass is stamped with the one clock reading \<open>now\<close>.
\<close>

fun checkLoop ::
  "achievement list \<Rightarrow> state \<Rightarrow> oid \<Rightarrow> date \<Rightarrow> (achievement \<times> date) list
     \<Rightarrow> state \<times> (error + (achievement \<times> date) list)" where
  "checkLoop [] st userId now acc = (st, Inr acc)"
| "checkLoop (ach # rest) st userId now acc =
     (case checkBody ach st userId now of
        (st1, Inl e) \<Rightarrow> (st1, Inl e)
      | (st1, Inr None) \<Rightarrow> checkLoop rest st1 userId now acc
      | (st1, Inr (Some x)) \<Rightarrow> checkLoop rest st1 userId now (acc @ [x]))"

definition checkAchievements ::
  "state \<Rightarrow> oid \<Rightarrow> date \<Rightarrow> state \<times> (error + (achievement \<times> date) list)" where
  "checkAchievements st userId now = checkLoop ACHIEVEMENTS st userId now []"

section \<open>Task lifecycle: POST /api/tasks/:id/complete\<close>

text \<open>
  The award: 50, raised to 100 for high and 75 for medium priority, plus 25 when the task
  is of type deadline, has a deadline, and the clock reading of the test is before it.
\<close>

definition awardPoints :: "task \<Rightarrow> date \<Rightarrow> int" where
  "awardPoints t now =
     (let pts = (if priority t = High then 100 else if priority t = Medium then 75 else 50)
      in case deadline t of
           Some d \<Rightarrow> (if ttype t = Deadline \<and> now < d then pts + 25 else pts)
         | None \<Rightarrow> pts)"

record complete_response =
  resp_task :: task
  pointsEarned :: int
  totalPoints :: int
  newAchievements :: "(achievement \<times> date) list"

text \<open>
  The handler, for the authenticated user id \<open>userId\<close> and the path parameter \<open>tid\<close>.
  It reads the clock three times: \<open>tDone\<close> stamps \<open>completedAt\<close>, \<open>tAward\<close> is
  compared with the deadline, \<open>tAch\<close> stamps the unlocks. \<open>req.user\<close> is the document
  that \<open>authMiddleware\<close> loaded; \<open>totalPoints\<close> is read from it after
  \<open>checkAchievements\<close> has returned.
\<close>

definition completeTask ::
  "state \<Rightarrow> oid \<Rightarrow> oid \<Rightarrow> date \<Rightarrow> date \<Rightarrow> date \<Rightarrow> state \<times> (error + complete_response)" where
  "completeTask st userId tid tDone tAward tAch =
     (case findById userId (users st) of
        None \<Rightarrow> (st, Inl Unauthorized)
      | Some req_user \<Rightarrow>
         (case find (\<lambda>t. task_id t = tid \<and> task_userId t = userId) (tasks st) of
            None \<Rightarrow> (st, Inl NotFound)
          | Some t \<Rightarrow>
             if status t = Completed then (st, Inl AlreadyCompleted)
             else
               (let t' = t\<lparr>status := Completed, completedAt := Some tDone\<rparr>;
                    st1 = st\<lparr>tasks := save_task t' (tasks st)\<rparr>;
                    pts = awardPoints t' tAward;
                    req_user' = req_user\<lparr>points := points req_user + pts\<rparr>;
                    st2 = st1\<lparr>users := save_user req_user' (users st1)\<rparr>
                in case checkAchievements st2 userId tAch of
                     (st3, Inl e) \<Rightarrow> (st3, Inl ServerError)
                   | (st3, Inr achs) \<Rightarrow>
                       (st3, Inr \<lparr>resp_task = t', pointsEarned = pts,
                                  totalPoints = points req_user', newAchievements = achs\<rparr>))))"

section \<open>Streak: POST /api/auth/login\<close>

text \<open>
  \<open>setHours(0,0,0,0)\<close> yields the local midnight of a timestamp's calendar day. It
  depends on the host's time zone, so it is a parameter of every handler that uses it.
  \<open>offsetMidnight off\<close> is what it computes on a host whose local time is always
  \<open>off\<close> milliseconds ahead of UTC, and \<open>utcMidnight\<close> what it computes on a host
  that runs in UTC.
\<close>

type_synonym zone = "date \<Rightarrow> date"

definition msPerDay :: int where
  "msPerDay = 1000 * 60 * 60 * 24"

definition offsetMidnight :: "int \<Rightarrow> zone" where
  "offsetMidnight off t = t - (t + off) mod msPerDay"

definition utcMidnight :: zone where
  "utcMidnight t = t - t mod msPerDay"

text \<open>
  A host in New York around 10 March 2024: local time is five hours behind UTC until the
  instant 1710054000000 (07:00 UTC on that day), when the clocks go forward, and four
  hours behind from then on. The local day of a timestamp is taken with the offset in
  force at the timestamp; its midnight is at 05:00 UTC if that is before the change and
  at 04:00 UTC otherwise.
\<close>

definition newYorkMidnight :: zone where
  "newYorkMidnight t =
     (let off = (if t < 1710054000000 then - (5 * 3600000) else - (4 * 3600000));
          day = (t + off) div msPerDay;
          est = day * msPerDay + 5 * 3600000
      in if est < 1710054000000 then est else day * msPerDay + 4 * 3600000)"

text \<open>
  \<open>dayDiff\<close> is a quotient of two numbers, not an integer division. Both timestamps are
  whole milliseconds, so the double-precision quotient is 1 exactly when the exact one
  is, and above 1 exactly when the exact one is; the exact rational stands for it.
\<close>

definition dayDiff :: "zone \<Rightarrow> date \<Rightarrow> date \<Rightarrow> rat" where
  "dayDiff setHours0 now lastActiveDate' =
     (let today = setHours0 now; lastActive = setHours0 lastActiveDate'
      in of_int (today - lastActive) / of_int msPerDay)"

text \<open>
  The streak update on the loaded user document; \<open>tNow\<close> is the clock reading that
  \<open>today\<close> is computed from and \<open>tSave\<close> the later one stored in \<open>lastActiveDate\<close>.
\<close>

definition updateStreak :: "zone \<Rightarrow> user \<Rightarrow> date \<Rightarrow> date \<Rightarrow> user" where
  "updateStreak setHours0 u tNow tSave =
     (let dd = dayDiff setHours0 tNow (lastActiveDate u);
          u1 = (if dd = 1 then u\<lparr>streak := streak u + 1\<rparr>
                else if dd > 1 then u\<lparr>streak := 1\<rparr>
                else u)
      in u1\<lparr>lastActiveDate := tSave\<rparr>)"

text \<open>
  The login handler. \<open>email'\<close> is the request's email after \<open>toLowerCase\<close>, and
  \<open>compare\<close> is \<open>bcrypt.compare\<close>. The response carries the saved user.
\<close>

definition login ::
  "zone \<Rightarrow> (string \<Rightarrow> string \<Rightarrow> bool) \<Rightarrow> state \<Rightarrow> string \<Rightarrow> string \<Rightarrow> date \<Rightarrow> date
     \<Rightarrow> state \<times> (error + user)" where
  "login setHours0 compare st email' password' tNow tSave =
     (case find (\<lambda>u. email u = email') (users st) of
        None \<Rightarrow> (st, Inl InvalidCredentials)
      | Some u \<Rightarrow>
         if \<not> compare password' (password u) then (st, Inl InvalidCredentials)
         else (let u' = updateStreak setHours0 u tNow tSave
               in (st\<lparr>users := save_user u' (users st)\<rparr>, Inr u')))"

section \<open>Completion percentages\<close>

text \<open>
  JavaScript numbers are IEEE 754 doubles. A double is the rational it denotes; \<open>fl\<close>
  rounds a rational to the nearest double (53-bit significand, ties to even). The
  quotients and products below lie between \<open>2 ^ - 53\<close> and 100, far from overflow and
  from the subnormal range, so the exponent is unbounded here.
\<close>

definition pow2 :: "int \<Rightarrow> rat" where
  "pow2 e = (if 0 \<le> e then 2 ^ nat e else 1 / 2 ^ nat (- e))"

text \<open>The exponent \<open>e\<close> with \<open>2 ^ e \<le> q < 2 ^ (e + 1)\<close>, for \<open>q > 0\<close>.\<close>

definition binade :: "rat \<Rightarrow> int" where
  "binade q = (let (a, b) = quotient_of q; e0 = bitlen a - bitlen b
               in if pow2 e0 \<le> q then e0 else e0 - 1)"

definition roundTiesToEven :: "rat \<Rightarrow> int" where
  "roundTiesToEven s =
     (let f = \<lfloor>s\<rfloor>; r = s - of_int f
      in if r < 1 / 2 then f else if 1 / 2 < r then f + 1 else if even f then f else f + 1)"

definition fl :: "rat \<Rightarrow> rat" where
  "fl q = (if q = 0 then 0
           else let e = binade \<bar>q\<bar>
                in sgn q * of_int (roundTiesToEven (\<bar>q\<bar> * pow2 (52 - e))) * pow2 (e - 52))"

text \<open>\<open>Math.round\<close>: the nearest integer, a tie going up.\<close>

definition Math_round :: "rat \<Rightarrow> int" where
  "Math_round x = \<lfloor>x + 1 / 2\<rfloor>"

text \<open>
  \<open>len ? Math.round((completed / len) * 100) : 0\<close>: a division, then a multiplication,
  each rounded to a double.
\<close>

definition completionPercent :: "nat \<Rightarrow> nat \<Rightarrow> int" where
  "completionPercent completed' len =
     (if len \<noteq> 0 then Math_round (fl (fl (of_nat completed' / of_nat len) * 100)) else 0)"

definition completedOf :: "task list \<Rightarrow> nat" where
  "completedOf ts = length (filter (\<lambda>t. status t = Completed) ts)"

section \<open>Sections: GET, POST and DELETE /api/sections, DELETE /api/subsections\<close>

record subsection_view =
  sbv_sub :: subsection_doc
  sbv_tasks :: "task list"
  sbv_completionPercent :: int

record section_view =
  sv_section :: section_doc
  sv_subsections :: "subsection_view list"
  sv_tasks :: "task list"
  sv_completionPercent :: int

definition subWithTasks :: "state \<Rightarrow> subsection_doc \<Rightarrow> subsection_view" where
  "subWithTasks st sub =
     (let ts = filter (\<lambda>t. subsectionId t = Some (sub_id sub)) (tasks st);
          completed' = completedOf ts
      in \<lparr>sbv_sub = sub, sbv_tasks = ts,
          sbv_completionPercent = completionPercent completed' (length ts)\<rparr>)"

definition sectionView :: "state \<Rightarrow> section_doc \<Rightarrow> section_view" where
  "sectionView st sec =
     (let subs = sort_key sub_order (filter (\<lambda>s. sub_sectionId s = sec_id sec) (subsections st));
          sectionTasks = filter (\<lambda>t. sectionId t = sec_id sec \<and> subsectionId t = None) (tasks st);
          subsWithTasks = map (subWithTasks st) subs;
          allTasks = sectionTasks @ concat (map sbv_tasks subsWithTasks);
          completed' = completedOf allTasks
      in \<lparr>sv_section = sec, sv_subsections = subsWithTasks, sv_tasks = sectionTasks,
          sv_completionPercent = completionPercent completed' (length allTasks)\<rparr>)"

definition getSections :: "state \<Rightarrow> oid \<Rightarrow> error + section_view list" where
  "getSections st userId =
     (case findById userId (users st) of
        None \<Rightarrow> Inl Unauthorized
      | Some req_user \<Rightarrow>
          Inr (map (sectionView st)
                 (sort_key sec_order (filter (\<lambda>s. sec_userId s = userId) (sections st)))))"

text \<open>
  \<open>POST /api/sections\<close> awaits twice: first the count, then \<open>section.save()\<close>. The
  save validates before it inserts: \<open>title\<close> is \<open>required\<close>, which a \<open>String\<close> path
  fails when the value is absent or the empty string; the handler's \<open>catch\<close> then
  answers 500 and nothing is stored. An absent \<open>icon\<close> gets the schema's default, the
  folder glyph (here as its UTF-8 bytes).
\<close>

definition defaultIcon :: string where
  "defaultIcon = [CHR 0xF0, CHR 0x9F, CHR 0x93, CHR 0x81]"

definition countSections :: "state \<Rightarrow> oid \<Rightarrow> nat" where
  "countSections st userId = countDocuments (\<lambda>s. sec_userId s = userId) (sections st)"

definition saveSection ::
  "state \<Rightarrow> oid \<Rightarrow> string option \<Rightarrow> string option \<Rightarrow> date \<Rightarrow> nat
     \<Rightarrow> state \<times> (error + section_doc)" where
  "saveSection st userId title' icon' now count =
     (case title' of
        None \<Rightarrow> (st, Inl ServerError)
      | Some ti \<Rightarrow>
          if ti = [] then (st, Inl ServerError)
          else (let sec = \<lparr>sec_id = nextId st, sec_userId = userId, sec_title = ti,
                           sec_icon = (case icon' of None \<Rightarrow> defaultIcon | Some ic \<Rightarrow> ic),
                           sec_order = int count, sec_createdAt = now\<rparr>
                in (st\<lparr>sections := sections st @ [sec], nextId := nextId st + 1\<rparr>, Inr sec)))"

text \<open>The handler when nothing else touches the store between its two awaits.\<close>

definition createSection ::
  "state \<Rightarrow> oid \<Rightarrow> string option \<Rightarrow> string option \<Rightarrow> date
     \<Rightarrow> state \<times> (error + section_doc)" where
  "createSection st userId title' icon' now =
     (case findById userId (users st) of
        None \<Rightarrow> (st, Inl Unauthorized)
      | Some req_user \<Rightarrow> saveSection st userId title' icon' now (countSections st userId))"

text \<open>
  The two cascading deletes. \<open>Task.deleteMany\<close> and \<open>Subsection.deleteMany\<close> filter on
  the parent id alone; only the last \<open>findOneAndDelete\<close> names the owner.
\<close>

definition deleteSection :: "state \<Rightarrow> oid \<Rightarrow> oid \<Rightarrow> state \<times> (error + unit)" where
  "deleteSection st userId sid =
     (case findById userId (users st) of
        None \<Rightarrow> (st, Inl Unauthorized)
      | Some req_user \<Rightarrow>
         (let st1 = st\<lparr>tasks := filter (\<lambda>t. sectionId t \<noteq> sid) (tasks st)\<rparr>;
              st2 = st1\<lparr>subsections := filter (\<lambda>s. sub_sectionId s \<noteq> sid) (subsections st1)\<rparr>;
              st3 = st2\<lparr>sections :=
                      deleteFirst (\<lambda>s. sec_id s = sid \<and> sec_userId s = userId) (sections st2)\<rparr>
          in (st3, Inr ())))"

definition deleteSubsection :: "state \<Rightarrow> oid \<Rightarrow> oid \<Rightarrow> state \<times> (error + unit)" where
  "deleteSubsection st userId sid =
     (case findById userId (users st) of
        None \<Rightarrow> (st, Inl Unauthorized)
      | Some req_user \<Rightarrow>
         (let st1 = st\<lparr>tasks := filter (\<lambda>t. subsectionId t \<noteq> Some sid) (tasks st)\<rparr>;
              st2 = st1\<lparr>subsections :=
                      deleteFirst (\<lambda>s. sub_id s = sid \<and> sub_userId s = userId) (subsections st1)\<rparr>
          in (st2, Inr ())))"

section \<open>Weekly heatmap: GET /api/stats/weekly\<close>

record day_summary =
  ds_date :: date
  total :: nat
  completed :: nat
  percent :: int

text \<open>A range condition of the query matches no document whose field is null.\<close>

definition inRange :: "date \<Rightarrow> date \<Rightarrow> date option \<Rightarrow> bool" where
  "inRange lo hi x = (case x of None \<Rightarrow> False | Some d \<Rightarrow> lo \<le> d \<and> d \<le> hi)"

text \<open>\<open>t.targetDate || t.deadline\<close>.\<close>

definition anchorDate :: "task \<Rightarrow> date option" where
  "anchorDate t = (case targetDate t of Some d \<Rightarrow> Some d | None \<Rightarrow> deadline t)"

text \<open>
  Two timestamps have the same \<open>toDateString()\<close> exactly when they lie on the same local
  calendar day, that is, have the same local midnight. Every task the query returns has
  one of its two dates set, so the \<open>None\<close> case is never reached from \<open>weekly\<close>.
\<close>

definition sameDateString :: "zone \<Rightarrow> date option \<Rightarrow> date \<Rightarrow> bool" where
  "sameDateString setHours0 td d =
     (case td of None \<Rightarrow> False | Some x \<Rightarrow> setHours0 x = setHours0 d)"

definition daySummary :: "zone \<Rightarrow> task list \<Rightarrow> date \<Rightarrow> int \<Rightarrow> day_summary" where
  "daySummary setHours0 ts today i =
     (let d = today - i * 24 * 60 * 60 * 1000;
          dayTasks = filter (\<lambda>t. sameDateString setHours0 (anchorDate t) d) ts;
          completed' = completedOf dayTasks
      in \<lparr>ds_date = d, total = length dayTasks, completed = completed',
          percent = completionPercent completed' (length dayTasks)\<rparr>)"

definition weekly :: "zone \<Rightarrow> state \<Rightarrow> oid \<Rightarrow> date \<Rightarrow> error + day_summary list" where
  "weekly setHours0 st userId today =
     (case findById userId (users st) of
        None \<Rightarrow> Inl Unauthorized
      | Some req_user \<Rightarrow>
         (let weekAgo = today - 7 * 24 * 60 * 60 * 1000;
              ts = filter (\<lambda>t. task_userId t = userId \<and>
                               (inRange weekAgo today (targetDate t) \<or>
                                inRange weekAgo today (deadline t))) (tasks st)
          in Inr (map (daySummary setHours0 ts today) [6, 5, 4, 3, 2, 1, 0])))"

section \<open>Interleaved section requests\<close>

text \<open>
  Requests run concurrently: a handler gives way at each \<open>await\<close>, and another request
  may run until its own next \<open>await\<close>. A request that has started is in flight, with
  what it has done so far: a creation has read its count; a deletion has deleted the
  tasks, or the tasks and the subsections. \<open>Start\<close> runs a new request, numbered
  \<open>rid\<close>, up to the end of its first database operation (the user lookup of
  \<open>authMiddleware\<close> comes first; no section request changes the users). \<open>Continue\<close>
  runs the next database operation of a request in flight.
\<close>

datatype request =
  CreateSection oid "string option" "string option" date
| DeleteSection oid oid

datatype progress =
  Counted oid "string option" "string option" date nat
| TasksDeleted oid oid
| SubsectionsDeleted oid oid

datatype step = Start nat request | Continue nat

record system =
  store :: state
  inflight :: "(nat \<times> progress) list"

fun stepSys :: "system \<Rightarrow> step \<Rightarrow> system" where
  "stepSys sys (Start rid (CreateSection userId title' icon' now)) =
     (if map_of (inflight sys) rid \<noteq> None then sys
      else case findById userId (users (store sys)) of
             None \<Rightarrow> sys
           | Some req_user \<Rightarrow>
               sys\<lparr>inflight := inflight sys @
                      [(rid, Counted userId title' icon' now (countSections (store sys) userId))]\<rparr>)"
| "stepSys sys (Start rid (DeleteSection userId sid)) =
     (if map_of (inflight sys) rid \<noteq> None then sys
      else case findById userId (users (store sys)) of
             None \<Rightarrow> sys
           | Some req_user \<Rightarrow>
               sys\<lparr>store := (store sys)\<lparr>tasks := filter (\<lambda>t. sectionId t \<noteq> sid) (tasks (store sys))\<rparr>,
                   inflight := inflight sys @ [(rid, TasksDeleted userId sid)]\<rparr>)"
| "stepSys sys (Continue rid) =
     (case map_of (inflight sys) rid of
        None \<Rightarrow> sys
      | Some (Counted userId title' icon' now count) \<Rightarrow>
          sys\<lparr>store := fst (saveSection (store sys) userId title' icon' now count),
              inflight := filter (\<lambda>p. fst p \<noteq> rid) (inflight sys)\<rparr>
      | Some (TasksDeleted userId sid) \<Rightarrow>
          sys\<lparr>store := (store sys)\<lparr>subsections :=
                          filter (\<lambda>s. sub_sectionId s \<noteq> sid) (subsections (store sys))\<rparr>,
              inflight := map (\<lambda>p. if fst p = rid then (rid, SubsectionsDeleted userId sid) else p)
                            (inflight sys)\<rparr>
      | Some (SubsectionsDeleted userId sid) \<Rightarrow>
          sys\<lparr>store := (store sys)\<lparr>sections :=
                          deleteFirst (\<lambda>s. sec_id s = sid \<and> sec_userId s = userId)
                            (sections (store sys))\<rparr>,
              inflight := filter (\<lambda>p. fst p \<noteq> rid) (inflight sys)\<rparr>)"

definition runSteps :: "system \<Rightarrow> step list \<Rightarrow> system" where
  "runSteps sys steps = foldl stepSys sys steps"

text \<open>The \<open>order\<close> values of one user's sections, in insertion order.\<close>

definition userOrders :: "state \<Rightarrow> oid \<Rightarrow> int list" where
  "userOrders st userId = map sec_order (filter (\<lambda>s. sec_userId s = userId) (sections st))"









section \<open>Auxiliary notions for the proofs\<close>

text \<open>
  The unlock record that one pushed entry stands for, the sum of the rewards of a list of
  entries, and the store after the entries \<open>gs\<close> have been granted to the user whose
  document was \<open>u\<close>: one record appended and the reward added for each.
\<close>

definition mkUnlock :: "oid \<Rightarrow> achievement \<times> date \<Rightarrow> unlock" where
  "mkUnlock userId x = \<lparr>unl_userId = userId, achievementId = ach_id (fst x), unlockedAt = snd x\<rparr>"

definition rewards :: "achievement list \<Rightarrow> int" where
  "rewards gs = sum_list (map ach_points gs)"

definition afterGrants :: "state \<Rightarrow> oid \<Rightarrow> date \<Rightarrow> user \<Rightarrow> achievement list \<Rightarrow> state" where
  "afterGrants st userId now u gs =
     st\<lparr>achievements := achievements st @ map (\<lambda>a. mkUnlock userId (a, now)) gs,
        users := (if gs = [] then users st
                  else save_user (u\<lparr>points := points u + rewards gs\<rparr>) (users st))\<rparr>"

text \<open>
  What one pass grants, read off the store it starts from: the entries in the order of
  the source's array, each granted when the user has no unlock record for it and its
  predicate holds. The counts and the streak are those of the starting store; the
  points that \<open>points_1000\<close> sees are the starting points plus the rewards of the four
  entries before it. The reward of \<open>tasks_10\<close> comes after that test.
\<close>

definition passGrants :: "state \<Rightarrow> oid \<Rightarrow> user \<Rightarrow> achievement list" where
  "passGrants st userId u =
     (let c = completedCount st userId;
          e = earlyCount st userId;
          g1 = (if \<not> unlocked st userId ''first_task'' \<and> 1 \<le> c then [first_task] else []);
          g2 = g1 @ (if \<not> unlocked st userId ''streak_7'' \<and> 7 \<le> streak u then [streak_7] else []);
          g3 = g2 @ (if \<not> unlocked st userId ''tasks_100'' \<and> 100 \<le> c then [tasks_100] else []);
          g4 = g3 @ (if \<not> unlocked st userId ''early_10'' \<and> 10 \<le> e then [early_10] else []);
          g5 = g4 @ (if \<not> unlocked st userId ''points_1000'' \<and> 1000 \<le> points u + rewards g4
                     then [points_1000] else []);
          g6 = g5 @ (if \<not> unlocked st userId ''tasks_10'' \<and> 10 \<le> c then [tasks_10] else [])
      in g6)"

text \<open>
  The catalog in the order of the specification's table, which is not the order of the
  source's array.
\<close>

definition specCatalog :: "achievement list" where
  "specCatalog = [first_task, tasks_10, tasks_100, streak_7, points_1000, early_10]"

section \<open>Example stores\<close>

definition mkTask ::
  "oid \<Rightarrow> oid \<Rightarrow> oid option \<Rightarrow> task_status \<Rightarrow> date option \<Rightarrow> oid \<Rightarrow> task" where
  "mkTask userId sec sub st td i =
     \<lparr>task_id = i, task_userId = userId, sectionId = sec, subsectionId = sub, title = ''task'',
      ttype = Daily, targetDate = td, deadline = None, priority = Medium, tags = [],
      status = st, completedAt = (if st = Completed then td else None), task_createdAt = 0\<rparr>"

definition doneTask :: "oid \<Rightarrow> oid \<Rightarrow> task" where
  "doneTask userId i = mkTask userId 100 None Completed (Some 0) i"

definition alex :: user where
  "alex = \<lparr>user_id = 21, user_name = ''Alex'', email = ''alex@test.com'', password = ''hash'',
     points = 900, streak = 0, lastActiveDate = 0, user_createdAt = 0\<rparr>"

text \<open>
  Sam was last active at 20:00 on day 9 (UTC), has a streak of 6 and 950 points.
\<close>

definition sam :: user where
  "sam = \<lparr>user_id = 22, user_name = ''Sam'', email = ''sam@test.com'', password = ''hash'',
     points = 950, streak = 6, lastActiveDate = 849600000, user_createdAt = 0\<rparr>"

definition bea :: user where
  "bea = \<lparr>user_id = 23, user_name = ''Bea'', email = ''bea@test.com'', password = ''hash'',
     points = 0, streak = 0, lastActiveDate = 0, user_createdAt = 0\<rparr>"

text \<open>
  Alex has ten completed tasks, 900 points and the \<open>first_task\<close> unlock only.
\<close>

definition gapStore :: state where
  "gapStore = \<lparr>users = [alex], sections = [], subsections = [],
     tasks = map (doneTask 21) [1, 2, 3, 4, 5, 6, 7, 8, 9, 10],
     achievements = [\<lparr>unl_userId = 21, achievementId = ''first_task'', unlockedAt = 0\<rparr>],
     nextId = 200\<rparr>"

text \<open>
  Sam has one completed task, no unlock, and a pending high-priority task whose deadline
  is the instant 5000.
\<close>

definition reportTask :: task where
  "reportTask =
     \<lparr>task_id = 41, task_userId = 22, sectionId = 100, subsectionId = None, title = ''Report'',
      ttype = Deadline, targetDate = None, deadline = Some 5000, priority = High, tags = [],
      status = Pending, completedAt = None, task_createdAt = 0\<rparr>"

definition sprintStore :: state where
  "sprintStore = \<lparr>users = [sam], sections = [], subsections = [],
     tasks = [reportTask, doneTask 22 42], achievements = [], nextId = 200\<rparr>"

definition beaSection :: section_doc where
  "beaSection = \<lparr>sec_id = 30, sec_userId = 23, sec_title = ''Work'', sec_icon = ''W'',
     sec_order = 0, sec_createdAt = 0\<rparr>"

definition beaSub :: subsection_doc where
  "beaSub = \<lparr>sub_id = 31, sub_sectionId = 30, sub_userId = 23, sub_title = ''Reports'',
     sub_order = 0, sub_createdAt = 0\<rparr>"

text \<open>Bea owns a section, a subsection of it, and a task in each; Alex owns nothing.\<close>

definition sharedStore :: state where
  "sharedStore = \<lparr>users = [alex, bea], sections = [beaSection], subsections = [beaSub],
     tasks = [mkTask 23 30 (Some 31) Pending (Some 0) 32, mkTask 23 30 None Pending (Some 0) 33],
     achievements = [], nextId = 200\<rparr>"

text \<open>Bea's subsection holds 40 tasks, 23 of them completed.\<close>

definition bigStore :: state where
  "bigStore = \<lparr>users = [bea], sections = [beaSection], subsections = [beaSub],
     tasks = map (mkTask 23 30 (Some 31) Completed (Some 0)) [101..<124] @
             map (mkTask 23 30 (Some 31) Pending (Some 0)) [124..<141],
     achievements = [], nextId = 200\<rparr>"

text \<open>
  Bea has one task, targeted at 15:00 on day 10 (UTC), the instant 918000000; 10:00 on
  that day is the instant 900000000.
\<close>

definition lateStore :: state where
  "lateStore = \<lparr>users = [bea], sections = [beaSection], subsections = [],
     tasks = [mkTask 23 30 None Pending (Some 918000000) 32],
     achievements = [], nextId = 200\<rparr>"

definition emptyStore :: state where
  "emptyStore = \<lparr>users = [alex, bea], sections = [], subsections = [], tasks = [],
     achievements = [], nextId = 200\<rparr>"



text \<open>
  Nora, on the New York host, was last active at 11:00 local time on 10 March 2024 (the
  instant 1710082800000) and has a streak of 6.
\<close>

definition nora :: user where
  "nora = \<lparr>user_id = 24, user_name = ''Nora'', email = ''nora@test.com'', password = ''hash'',
     points = 0, streak = 6, lastActiveDate = 1710082800000, user_createdAt = 0\<rparr>"

definition nyStore :: state where
  "nyStore = \<lparr>users = [nora], sections = [], subsections = [], tasks = [],
     achievements = [], nextId = 200\<rparr>"

section \<open>Properties of the store operations and of the achievement pass\<close>

lemma findById_user_id: "findById i us = Some u \<Longrightarrow> user_id u = i"
  by (auto simp: findById_def dest: find_Some_iff[THEN iffD1])

lemma findById_save_user:
  "findById i (save_user u us) =
     (if user_id u = i then (case findById i us of None \<Rightarrow> None | Some v \<Rightarrow> Some u)
      else findById i us)"
  by (induction us) (auto simp: findById_def save_user_def)

lemma save_user_twice:
  "user_id u1 = user_id u2 \<Longrightarrow> save_user u2 (save_user u1 us) = save_user u2 us"
  by (induction us) (auto simp: save_user_def)

lemma checkBody_step:
  assumes "findById uid (users st) = Some u" "ach_check a st uid = Some b"
  shows "checkBody a st uid now =
     (if \<not> unlocked st uid (ach_id a) \<and> b
      then (st\<lparr>achievements := achievements st @ [mkUnlock uid (a, now)],
               users := save_user (u\<lparr>points := points u + ach_points a\<rparr>) (users st)\<rparr>,
            Inr (Some (a, now)))
      else (st, Inr None))"
  using assms by (auto simp: checkBody_def unlocked_def mkUnlock_def split: option.splits)

lemma afterGrants_Nil: "afterGrants st uid now u [] = st"
  by (simp add: afterGrants_def)

lemma tasks_afterGrants: "tasks (afterGrants st uid now u gs) = tasks st"
  and sections_afterGrants: "sections (afterGrants st uid now u gs) = sections st"
  and subsections_afterGrants: "subsections (afterGrants st uid now u gs) = subsections st"
  and nextId_afterGrants: "nextId (afterGrants st uid now u gs) = nextId st"
  and achievements_afterGrants: "achievements (afterGrants st uid now u gs) =
        achievements st @ map (\<lambda>a. mkUnlock uid (a, now)) gs"
  by (simp_all add: afterGrants_def)

lemma findById_afterGrants:
  assumes "findById uid (users st) = Some u"
  shows "findById uid (users (afterGrants st uid now u gs)) = Some (u\<lparr>points := points u + rewards gs\<rparr>)"
  using assms findById_user_id[OF assms]
  by (simp add: afterGrants_def findById_save_user rewards_def)

lemma findById_afterGrants_other:
  assumes "findById uid (users st) = Some u" "j \<noteq> uid"
  shows "findById j (users (afterGrants st uid now u gs)) = findById j (users st)"
  using assms findById_user_id[OF assms(1)]
  by (simp add: afterGrants_def findById_save_user)

lemma unlocked_iff:
  "unlocked st uid i \<longleftrightarrow> (\<exists>x\<in>set (achievements st). unl_userId x = uid \<and> achievementId x = i)"
  by (auto simp: unlocked_def find_None_iff)

lemma unlocked_afterGrants:
  "unlocked (afterGrants st uid now u gs) uid i \<longleftrightarrow> unlocked st uid i \<or> i \<in> ach_id ` set gs"
proof -
  have "(\<exists>x\<in>set (map (\<lambda>a. mkUnlock uid (a, now)) gs). unl_userId x = uid \<and> achievementId x = i)
        \<longleftrightarrow> i \<in> ach_id ` set gs"
    by (auto simp: mkUnlock_def)
  then show ?thesis
    unfolding unlocked_iff achievements_afterGrants set_append by blast
qed

lemma completedCount_afterGrants:
  "completedCount (afterGrants st uid now u gs) j = completedCount st j"
  by (simp add: completedCount_def tasks_afterGrants)

lemma earlyCount_afterGrants:
  "earlyCount (afterGrants st uid now u gs) j = earlyCount st j"
  by (simp add: earlyCount_def tasks_afterGrants)

lemma afterGrants_snoc:
  assumes "findById uid (users st) = Some u"
  shows "(afterGrants st uid now u gs)\<lparr>achievements := achievements (afterGrants st uid now u gs) @ [mkUnlock uid (a, now)],
            users := save_user (u\<lparr>points := points u + rewards gs\<rparr>\<lparr>points := points (u\<lparr>points := points u + rewards gs\<rparr>) + ach_points a\<rparr>)
                       (users (afterGrants st uid now u gs))\<rparr>
         = afterGrants st uid now u (gs @ [a])"
  using findById_user_id[OF assms]
  by (simp add: afterGrants_def save_user_twice rewards_def add.assoc)

lemma checkLoop_afterGrants:
  assumes "findById uid (users st) = Some u"
    and "ach_check a (afterGrants st uid now u gs) uid = Some b"
  shows "checkLoop (a # rest) (afterGrants st uid now u gs) uid now acc =
     (if \<not> unlocked st uid (ach_id a) \<and> ach_id a \<notin> ach_id ` set gs \<and> b
      then checkLoop rest (afterGrants st uid now u (gs @ [a])) uid now (acc @ [(a, now)])
      else checkLoop rest (afterGrants st uid now u gs) uid now acc)"
  using checkBody_step[OF findById_afterGrants[OF assms(1)] assms(2), where now = now]
    afterGrants_snoc[OF assms(1), where now = now and gs = gs and a = a]
  by (simp add: unlocked_afterGrants)


lemma ach_fields [simp]:
  "ach_id first_task = ''first_task''" "ach_points first_task = 50" "ach_check first_task = check_count 1"
  "ach_id streak_7 = ''streak_7''" "ach_points streak_7 = 200" "ach_check streak_7 = check_streak 7"
  "ach_id tasks_100 = ''tasks_100''" "ach_points tasks_100 = 500" "ach_check tasks_100 = check_count 100"
  "ach_id early_10 = ''early_10''" "ach_points early_10 = 150" "ach_check early_10 = check_early 10"
  "ach_id points_1000 = ''points_1000''" "ach_points points_1000 = 300" "ach_check points_1000 = check_points 1000"
  "ach_id tasks_10 = ''tasks_10''" "ach_points tasks_10 = 100" "ach_check tasks_10 = check_count 10"
  by (simp_all add: first_task_def streak_7_def tasks_100_def early_10_def points_1000_def tasks_10_def)

lemma check_afterGrants:
  assumes "findById uid (users st) = Some u"
  shows "check_count n (afterGrants st uid now u gs) uid = Some (n \<le> completedCount st uid)"
    and "check_early n (afterGrants st uid now u gs) uid = Some (n \<le> earlyCount st uid)"
    and "check_streak k (afterGrants st uid now u gs) uid = Some (k \<le> streak u)"
    and "check_points k (afterGrants st uid now u gs) uid = Some (k \<le> points u + rewards gs)"
  by (simp_all add: check_count_def check_early_def check_streak_def check_points_def
      completedCount_afterGrants earlyCount_afterGrants findById_afterGrants[OF assms])

lemma checkLoop_afterGrants':
  assumes "findById uid (users st) = Some u"
    and "ach_check a (afterGrants st uid now u gs) uid = Some b"
    and "ach_id a \<notin> ach_id ` set gs"
    and "G = (if \<not> unlocked st uid (ach_id a) \<and> b then [a] else [])"
  shows "checkLoop (a # rest) (afterGrants st uid now u gs) uid now (map (\<lambda>a. (a, now)) gs) =
         checkLoop rest (afterGrants st uid now u (gs @ G)) uid now (map (\<lambda>a. (a, now)) (gs @ G))"
  using checkLoop_afterGrants[OF assms(1,2)] assms(3,4) by simp

lemma checkAchievements_closed:
  assumes "findById uid (users st) = Some u"
  shows "checkAchievements st uid now =
     (afterGrants st uid now u (passGrants st uid u),
      Inr (map (\<lambda>a. (a, now)) (passGrants st uid u)))"
proof -
  define c where "c = completedCount st uid"
  define e where "e = earlyCount st uid"
  define g1 where "g1 = (if \<not> unlocked st uid ''first_task'' \<and> 1 \<le> c then [first_task] else [])"
  define g2 where "g2 = g1 @ (if \<not> unlocked st uid ''streak_7'' \<and> 7 \<le> streak u then [streak_7] else [])"
  define g3 where "g3 = g2 @ (if \<not> unlocked st uid ''tasks_100'' \<and> 100 \<le> c then [tasks_100] else [])"
  define g4 where "g4 = g3 @ (if \<not> unlocked st uid ''early_10'' \<and> 10 \<le> e then [early_10] else [])"
  define g5 where "g5 = g4 @ (if \<not> unlocked st uid ''points_1000'' \<and> 1000 \<le> points u + rewards g4
                     then [points_1000] else [])"
  define g6 where "g6 = g5 @ (if \<not> unlocked st uid ''tasks_10'' \<and> 10 \<le> c then [tasks_10] else [])"
  have pg: "passGrants st uid u = g6"
    unfolding passGrants_def Let_def g6_def g5_def g4_def g3_def g2_def g1_def c_def e_def ..
  have i1: "ach_id ` set g1 \<subseteq> {''first_task''}"
    by (auto simp: g1_def)
  have i2: "ach_id ` set g2 \<subseteq> {''first_task'', ''streak_7''}"
    using i1 by (auto simp: g2_def)
  have i3: "ach_id ` set g3 \<subseteq> {''first_task'', ''streak_7'', ''tasks_100''}"
    using i2 by (auto simp: g3_def)
  have i4: "ach_id ` set g4 \<subseteq> {''first_task'', ''streak_7'', ''tasks_100'', ''early_10''}"
    using i3 by (auto simp: g4_def)
  have i5: "ach_id ` set g5 \<subseteq> {''first_task'', ''streak_7'', ''tasks_100'', ''early_10'', ''points_1000''}"
    using i4 by (auto simp: g5_def)
  note chk = check_afterGrants[OF assms]
  have "checkAchievements st uid now =
        checkLoop ACHIEVEMENTS (afterGrants st uid now u []) uid now (map (\<lambda>a. (a, now)) [])"
    by (simp add: checkAchievements_def afterGrants_Nil)
  also have "\<dots> = checkLoop [streak_7, tasks_100, early_10, points_1000, tasks_10]
                     (afterGrants st uid now u ([] @ g1)) uid now (map (\<lambda>a. (a, now)) ([] @ g1))"
    unfolding ACHIEVEMENTS_def
    by (rule checkLoop_afterGrants'[OF assms]) (simp_all add: chk g1_def c_def)
  also have "\<dots> = checkLoop [streak_7, tasks_100, early_10, points_1000, tasks_10]
                     (afterGrants st uid now u g1) uid now (map (\<lambda>a. (a, now)) g1)"
    by simp
  also have "\<dots> = checkLoop [tasks_100, early_10, points_1000, tasks_10]
                     (afterGrants st uid now u g2) uid now (map (\<lambda>a. (a, now)) g2)"
    unfolding g2_def
    by (rule checkLoop_afterGrants'[OF assms]) (use i1 in \<open>auto simp: chk\<close>)
  also have "\<dots> = checkLoop [early_10, points_1000, tasks_10]
                     (afterGrants st uid now u g3) uid now (map (\<lambda>a. (a, now)) g3)"
    unfolding g3_def
    by (rule checkLoop_afterGrants'[OF assms]) (use i2 in \<open>auto simp: chk c_def\<close>)
  also have "\<dots> = checkLoop [points_1000, tasks_10]
                     (afterGrants st uid now u g4) uid now (map (\<lambda>a. (a, now)) g4)"
    unfolding g4_def
    by (rule checkLoop_afterGrants'[OF assms]) (use i3 in \<open>auto simp: chk e_def\<close>)
  also have "\<dots> = checkLoop [tasks_10]
                     (afterGrants st uid now u g5) uid now (map (\<lambda>a. (a, now)) g5)"
    unfolding g5_def
    by (rule checkLoop_afterGrants'[OF assms]) (use i4 in \<open>auto simp: chk\<close>)
  also have "\<dots> = checkLoop []
                     (afterGrants st uid now u g6) uid now (map (\<lambda>a. (a, now)) g6)"
    unfolding g6_def
    by (rule checkLoop_afterGrants'[OF assms]) (use i5 in \<open>auto simp: chk c_def\<close>)
  finally show ?thesis
    by (simp add: pg)
qed

lemma checkLoop_steps:
  assumes "findById uid (users st) = Some u"
  shows "checkLoop (first_task # rest) (afterGrants st uid now u gs) uid now acc =
     (if \<not> unlocked st uid (ach_id first_task) \<and> ach_id first_task \<notin> ach_id ` set gs \<and>
         1 \<le> completedCount st uid
      then checkLoop rest (afterGrants st uid now u (gs @ [first_task])) uid now (acc @ [(first_task, now)])
      else checkLoop rest (afterGrants st uid now u gs) uid now acc)"
    and "checkLoop (streak_7 # rest) (afterGrants st uid now u gs) uid now acc =
     (if \<not> unlocked st uid (ach_id streak_7) \<and> ach_id streak_7 \<notin> ach_id ` set gs \<and>
         7 \<le> streak u
      then checkLoop rest (afterGrants st uid now u (gs @ [streak_7])) uid now (acc @ [(streak_7, now)])
      else checkLoop rest (afterGrants st uid now u gs) uid now acc)"
    and "checkLoop (tasks_100 # rest) (afterGrants st uid now u gs) uid now acc =
     (if \<not> unlocked st uid (ach_id tasks_100) \<and> ach_id tasks_100 \<notin> ach_id ` set gs \<and>
         100 \<le> completedCount st uid
      then checkLoop rest (afterGrants st uid now u (gs @ [tasks_100])) uid now (acc @ [(tasks_100, now)])
      else checkLoop rest (afterGrants st uid now u gs) uid now acc)"
    and "checkLoop (early_10 # rest) (afterGrants st uid now u gs) uid now acc =
     (if \<not> unlocked st uid (ach_id early_10) \<and> ach_id early_10 \<notin> ach_id ` set gs \<and>
         10 \<le> earlyCount st uid
      then checkLoop rest (afterGrants st uid now u (gs @ [early_10])) uid now (acc @ [(early_10, now)])
      else checkLoop rest (afterGrants st uid now u gs) uid now acc)"
    and "checkLoop (points_1000 # rest) (afterGrants st uid now u gs) uid now acc =
     (if \<not> unlocked st uid (ach_id points_1000) \<and> ach_id points_1000 \<notin> ach_id ` set gs \<and>
         1000 \<le> points u + rewards gs
      then checkLoop rest (afterGrants st uid now u (gs @ [points_1000])) uid now (acc @ [(points_1000, now)])
      else checkLoop rest (afterGrants st uid now u gs) uid now acc)"
    and "checkLoop (tasks_10 # rest) (afterGrants st uid now u gs) uid now acc =
     (if \<not> unlocked st uid (ach_id tasks_10) \<and> ach_id tasks_10 \<notin> ach_id ` set gs \<and>
         10 \<le> completedCount st uid
      then checkLoop rest (afterGrants st uid now u (gs @ [tasks_10])) uid now (acc @ [(tasks_10, now)])
      else checkLoop rest (afterGrants st uid now u gs) uid now acc)"
  by (rule checkLoop_afterGrants[OF assms], simp add: check_afterGrants[OF assms])+

lemma rewards_map_fst [simp]:
  "rewards (map fst (map (\<lambda>a. (a, now)) gs)) = rewards gs"
  "rewards (map (fst \<circ> (\<lambda>a. (a, now))) gs) = rewards gs"
  by (simp_all add: rewards_def comp_def)

lemma passGrants_split:
  "\<exists>c5. passGrants st uid u =
     (if \<not> unlocked st uid ''first_task'' \<and> 1 \<le> completedCount st uid then [first_task] else []) @
     (if \<not> unlocked st uid ''streak_7'' \<and> 7 \<le> streak u then [streak_7] else []) @
     (if \<not> unlocked st uid ''tasks_100'' \<and> 100 \<le> completedCount st uid then [tasks_100] else []) @
     (if \<not> unlocked st uid ''early_10'' \<and> 10 \<le> earlyCount st uid then [early_10] else []) @
     (if \<not> unlocked st uid ''points_1000'' \<and> c5 then [points_1000] else []) @
     (if \<not> unlocked st uid ''tasks_10'' \<and> 10 \<le> completedCount st uid then [tasks_10] else [])"
  unfolding passGrants_def Let_def append_assoc by (rule exI) (rule refl)

lemma passGrants_ids:
  "''first_task'' \<in> ach_id ` set (passGrants st uid u) \<longleftrightarrow>
     \<not> unlocked st uid ''first_task'' \<and> 1 \<le> completedCount st uid"
  "''streak_7'' \<in> ach_id ` set (passGrants st uid u) \<longleftrightarrow>
     \<not> unlocked st uid ''streak_7'' \<and> 7 \<le> streak u"
  "''tasks_100'' \<in> ach_id ` set (passGrants st uid u) \<longleftrightarrow>
     \<not> unlocked st uid ''tasks_100'' \<and> 100 \<le> completedCount st uid"
  "''early_10'' \<in> ach_id ` set (passGrants st uid u) \<longleftrightarrow>
     \<not> unlocked st uid ''early_10'' \<and> 10 \<le> earlyCount st uid"
  "''tasks_10'' \<in> ach_id ` set (passGrants st uid u) \<longleftrightarrow>
     \<not> unlocked st uid ''tasks_10'' \<and> 10 \<le> completedCount st uid"
proof -
  define c1 where "c1 \<longleftrightarrow> \<not> unlocked st uid ''first_task'' \<and> 1 \<le> completedCount st uid"
  define c2 where "c2 \<longleftrightarrow> \<not> unlocked st uid ''streak_7'' \<and> 7 \<le> streak u"
  define c3 where "c3 \<longleftrightarrow> \<not> unlocked st uid ''tasks_100'' \<and> 100 \<le> completedCount st uid"
  define c4 where "c4 \<longleftrightarrow> \<not> unlocked st uid ''early_10'' \<and> 10 \<le> earlyCount st uid"
  define c6 where "c6 \<longleftrightarrow> \<not> unlocked st uid ''tasks_10'' \<and> 10 \<le> completedCount st uid"
  obtain c5 where g: "passGrants st uid u =
     (if c1 then [first_task] else []) @ (if c2 then [streak_7] else []) @
     (if c3 then [tasks_100] else []) @ (if c4 then [early_10] else []) @
     (if \<not> unlocked st uid ''points_1000'' \<and> c5 then [points_1000] else []) @
     (if c6 then [tasks_10] else [])"
    unfolding c1_def c2_def c3_def c4_def c6_def using passGrants_split by blast
  show "''first_task'' \<in> ach_id ` set (passGrants st uid u) \<longleftrightarrow>
     \<not> unlocked st uid ''first_task'' \<and> 1 \<le> completedCount st uid"
    unfolding g c1_def[symmetric] by auto
  show "''streak_7'' \<in> ach_id ` set (passGrants st uid u) \<longleftrightarrow>
     \<not> unlocked st uid ''streak_7'' \<and> 7 \<le> streak u"
    unfolding g c2_def[symmetric] by auto
  show "''tasks_100'' \<in> ach_id ` set (passGrants st uid u) \<longleftrightarrow>
     \<not> unlocked st uid ''tasks_100'' \<and> 100 \<le> completedCount st uid"
    unfolding g c3_def[symmetric] by auto
  show "''early_10'' \<in> ach_id ` set (passGrants st uid u) \<longleftrightarrow>
     \<not> unlocked st uid ''early_10'' \<and> 10 \<le> earlyCount st uid"
    unfolding g c4_def[symmetric] by auto
  show "''tasks_10'' \<in> ach_id ` set (passGrants st uid u) \<longleftrightarrow>
     \<not> unlocked st uid ''tasks_10'' \<and> 10 \<le> completedCount st uid"
    unfolding g c6_def[symmetric] by auto
qed

text \<open>
  A pass that starts from the store a pass has just left grants nothing but, possibly,
  \<open>points_1000\<close>: the five other predicates read only the tasks and the streak, which
  a pass does not change.
\<close>

lemma passGrants_second:
  assumes "st1 = afterGrants st uid t1 u (passGrants st uid u)"
    and "streak u1 = streak u"
  shows "passGrants st1 uid u1 =
     (if \<not> unlocked st1 uid ''points_1000'' \<and> 1000 \<le> points u1 then [points_1000] else [])"
proof -
  have un: "unlocked st1 uid i \<longleftrightarrow> unlocked st uid i \<or> i \<in> ach_id ` set (passGrants st uid u)" for i
    by (simp add: assms(1) unlocked_afterGrants)
  have c: "completedCount st1 uid = completedCount st uid" "earlyCount st1 uid = earlyCount st uid"
    by (simp_all add: assms(1) completedCount_afterGrants earlyCount_afterGrants)
  have f: "(\<not> unlocked st1 uid ''first_task'' \<and> 1 \<le> completedCount st1 uid) = False"
    "(\<not> unlocked st1 uid ''streak_7'' \<and> 7 \<le> streak u1) = False"
    "(\<not> unlocked st1 uid ''tasks_100'' \<and> 100 \<le> completedCount st1 uid) = False"
    "(\<not> unlocked st1 uid ''early_10'' \<and> 10 \<le> earlyCount st1 uid) = False"
    "(\<not> unlocked st1 uid ''tasks_10'' \<and> 10 \<le> completedCount st1 uid) = False"
    unfolding un c assms(2) passGrants_ids by blast+
  show ?thesis
    unfolding passGrants_def Let_def f by (simp add: rewards_def)
qed


section \<open>Properties of the task lifecycle\<close>

lemma awardPoints_eq:
  "awardPoints t now =
     (case priority t of Low \<Rightarrow> 50 | Medium \<Rightarrow> 75 | High \<Rightarrow> 100) +
     (if ttype t = Deadline \<and> (\<exists>d. deadline t = Some d \<and> now < d) then 25 else 0)"
  by (cases "priority t"; cases "deadline t"; simp add: awardPoints_def)

text \<open>
  A successful completion, step by step: the saved task \<open>t'\<close>, the user document \<open>u'\<close>
  with the award added, the store \<open>st2\<close> holding both, and then the achievement pass.
\<close>

lemma completeTask_success:
  assumes user: "findById uid (users st) = Some u"
    and found: "find (\<lambda>t. task_id t = tid \<and> task_userId t = uid) (tasks st) = Some t"
    and pending: "status t \<noteq> Completed"
    and t': "t' = t\<lparr>status := Completed, completedAt := Some tDone\<rparr>"
    and u': "u' = u\<lparr>points := points u + awardPoints t' tAward\<rparr>"
    and st2: "st2 = st\<lparr>tasks := save_task t' (tasks st), users := save_user u' (users st)\<rparr>"
  shows "completeTask st uid tid tDone tAward tAch =
     (afterGrants st2 uid tAch u' (passGrants st2 uid u'),
      Inr \<lparr>resp_task = t', pointsEarned = awardPoints t' tAward,
           totalPoints = points u + awardPoints t' tAward,
           newAchievements = map (\<lambda>a. (a, tAch)) (passGrants st2 uid u')\<rparr>)"
proof -
  have uid: "user_id u = uid" using user by (rule findById_user_id)
  have "findById uid (users st2) = Some u'"
    by (simp add: st2 findById_save_user u' uid user)
  from checkAchievements_closed[OF this, of tAch]
  show ?thesis
    using user found pending
    by (simp add: completeTask_def Let_def t' u' st2)
qed


text \<open>
  The award as the code computes it, for every pending task of the requesting user: the
  base by priority, the bonus decided by the clock reading \<open>tAward\<close> of the test, the
  task saved with its stamp \<open>tDone\<close>, and the achievement pass run on the store in which
  the user's points have grown by exactly the points earned.
\<close>

lemma completeTask_award:
  assumes "findById uid (users st) = Some u"
    and "find (\<lambda>t. task_id t = tid \<and> task_userId t = uid) (tasks st) = Some t"
    and "status t \<noteq> Completed"
  shows "\<exists>st' r. completeTask st uid tid tDone tAward tAch = (st', Inr r) \<and>
     pointsEarned r =
       (case priority t of Low \<Rightarrow> 50 | Medium \<Rightarrow> 75 | High \<Rightarrow> 100) +
       (if ttype t = Deadline \<and> (\<exists>d. deadline t = Some d \<and> tAward < d) then 25 else 0) \<and>
     resp_task r = t\<lparr>status := Completed, completedAt := Some tDone\<rparr> \<and>
     checkAchievements
       (st\<lparr>tasks := save_task (resp_task r) (tasks st),
           users := save_user (u\<lparr>points := points u + pointsEarned r\<rparr>) (users st)\<rparr>)
       uid tAch = (st', Inr (newAchievements r))"
proof -
  define t' where "t' = t\<lparr>status := Completed, completedAt := Some tDone\<rparr>"
  define u' where "u' = u\<lparr>points := points u + awardPoints t' tAward\<rparr>"
  define st2 where "st2 = st\<lparr>tasks := save_task t' (tasks st), users := save_user u' (users st)\<rparr>"
  note run = completeTask_success[OF assms t'_def u'_def st2_def, of tAch]
  have uid: "user_id u = uid" using assms(1) by (rule findById_user_id)
  have found': "findById uid (users st2) = Some u'"
    by (simp add: st2_def findById_save_user u'_def uid assms(1))
  have pass: "checkAchievements st2 uid tAch =
      (afterGrants st2 uid tAch u' (passGrants st2 uid u'),
       Inr (map (\<lambda>a. (a, tAch)) (passGrants st2 uid u')))"
    by (rule checkAchievements_closed[OF found'])
  have pts: "awardPoints t' tAward =
       (case priority t of Low \<Rightarrow> 50 | Medium \<Rightarrow> 75 | High \<Rightarrow> 100) +
       (if ttype t = Deadline \<and> (\<exists>d. deadline t = Some d \<and> tAward < d) then 25 else 0)"
    by (simp add: awardPoints_eq t'_def)
  show ?thesis
    unfolding run using pts pass
    by (simp add: st2_def u'_def t'_def)
qed

text \<open>
  Claim C1 does not hold of the code. The handler stamps \<open>completedAt\<close> with one clock
  reading, awaits the save of the task, and tests the deadline against a second reading.
  Sam's report task, deadline 5000, is stamped 4999, before the deadline, and the second
  reading is 5000: the points earned are the base 100 without the bonus, although the
  saved task counts as completed before its deadline for \<open>early_10\<close>. With the second
  reading still at 4999 the same request earns 125.
\<close>

theorem completeTask_bonus_reads_later_clock:
  "deadline reportTask = Some 5000 \<and>
   map_sum id (completedAt \<circ> resp_task) (snd (completeTask sprintStore 22 41 4999 5000 5001)) =
     Inr (Some 4999) \<and>
   map_sum id pointsEarned (snd (completeTask sprintStore 22 41 4999 5000 5001)) = Inr 100 \<and>
   earlyCount (fst (completeTask sprintStore 22 41 4999 5000 5001)) 22 = 1 \<and>
   map_sum id pointsEarned (snd (completeTask sprintStore 22 41 4999 4999 5001)) = Inr 125"
  by code_simp

text \<open>
  Claim C2. Completing a task of the requesting user whose status is already completed
  fails with \<open>AlreadyCompleted\<close> and returns the store as it was: no task, no user and no
  unlock record is touched, and the achievement pass does not run.
\<close>

theorem completeTask_already_completed:
  assumes "findById uid (users st) = Some u"
    and "find (\<lambda>t. task_id t = tid \<and> task_userId t = uid) (tasks st) = Some t"
    and "status t = Completed"
  shows "completeTask st uid tid tDone tAward tAch = (st, Inl AlreadyCompleted)"
  using assms by (simp add: completeTask_def)


section \<open>Properties of the achievement pass\<close>

lemma alex_fields: "points alex = 900" "streak alex = 0" "user_id alex = 21"
  by (simp_all add: alex_def)

lemma gap_user: "findById 21 (users gapStore) = Some alex"
  by (simp add: gapStore_def findById_def alex_def)

lemma gap_counts: "completedCount gapStore 21 = 10" "earlyCount gapStore 21 = 0"
  by (simp_all add: gapStore_def completedCount_def earlyCount_def countDocuments_def
      doneTask_def mkTask_def)

lemma gap_unlocked: "unlocked gapStore 21 i \<longleftrightarrow> i = ''first_task''"
  by (auto simp: unlocked_iff gapStore_def)

lemma gap_pass: "passGrants gapStore 21 alex = [tasks_10]"
  by (simp add: passGrants_def Let_def gap_counts gap_unlocked alex_fields rewards_def)

lemma gap_first:
  "checkAchievements gapStore 21 0 = (afterGrants gapStore 21 0 alex [tasks_10], Inr [(tasks_10, 0)])"
  using checkAchievements_closed[OF gap_user, of 0] by (simp add: gap_pass)

text \<open>
  Claim C5, as amended. The pass goes through the catalog in the order of the source's
  array: \<open>first_task\<close>, \<open>streak_7\<close>, \<open>tasks_100\<close>, \<open>early_10\<close>, \<open>points_1000\<close>,
  \<open>tasks_10\<close>. It skips an entry the user has an unlock record for and tests every other
  predicate on the store as the earlier entries left it, so the rewards of the four
  entries before \<open>points_1000\<close> count toward it in the same pass and the reward of
  \<open>tasks_10\<close> does not (\<open>passGrants\<close>). Each new unlock appends one unlock record and
  adds that entry's reward to the user's points; the other users and the tasks are left
  as they were.
\<close>

theorem checkAchievements_in_source_order:
  assumes "findById uid (users st) = Some u"
  shows "map ach_id ACHIEVEMENTS =
           [''first_task'', ''streak_7'', ''tasks_100'', ''early_10'', ''points_1000'', ''tasks_10''] \<and>
     (\<exists>st'. checkAchievements st uid now = (st', Inr (map (\<lambda>a. (a, now)) (passGrants st uid u))) \<and>
        achievements st' = achievements st @
          map (\<lambda>a. \<lparr>unl_userId = uid, achievementId = ach_id a, unlockedAt = now\<rparr>)
            (passGrants st uid u) \<and>
        findById uid (users st') =
          Some (u\<lparr>points := points u + sum_list (map ach_points (passGrants st uid u))\<rparr>) \<and>
        (\<forall>j. j \<noteq> uid \<longrightarrow> findById j (users st') = findById j (users st)) \<and>
        tasks st' = tasks st)"
proof -
  let ?gs = "passGrants st uid u"
  let ?st' = "afterGrants st uid now u ?gs"
  have ids: "map ach_id ACHIEVEMENTS =
     [''first_task'', ''streak_7'', ''tasks_100'', ''early_10'', ''points_1000'', ''tasks_10'']"
    by (simp add: ACHIEVEMENTS_def)
  have "checkAchievements st uid now = (?st', Inr (map (\<lambda>a. (a, now)) ?gs))"
    by (rule checkAchievements_closed[OF assms])
  moreover have "achievements ?st' = achievements st @
          map (\<lambda>a. \<lparr>unl_userId = uid, achievementId = ach_id a, unlockedAt = now\<rparr>) ?gs"
    by (simp add: achievements_afterGrants mkUnlock_def)
  moreover have "findById uid (users ?st') =
          Some (u\<lparr>points := points u + sum_list (map ach_points ?gs)\<rparr>)"
    using findById_afterGrants[OF assms, of now ?gs] by (simp add: rewards_def)
  moreover have "\<forall>j. j \<noteq> uid \<longrightarrow> findById j (users ?st') = findById j (users st)"
    by (simp add: findById_afterGrants_other[OF assms])
  moreover have "tasks ?st' = tasks st"
    by (rule tasks_afterGrants)
  ultimately show ?thesis
    using ids by blast
qed

text \<open>
  Claim C5 as stated fails: from \<open>gapStore\<close> the source's order unlocks \<open>tasks_10\<close>
  alone, since \<open>points_1000\<close> is tested at 900 points before the \<open>tasks_10\<close> reward; the
  order of the specification's table would unlock both in the one pass.
\<close>

theorem spec_order_counterexample:
  "snd (checkAchievements gapStore 21 0) = Inr [(tasks_10, 0)] \<and>
   snd (checkLoop specCatalog gapStore 21 0 []) = Inr [(tasks_10, 0), (points_1000, 0)]"
proof -
  have "checkLoop specCatalog (afterGrants gapStore 21 0 alex []) 21 0 [] =
        (afterGrants gapStore 21 0 alex [tasks_10, points_1000], Inr [(tasks_10, 0), (points_1000, 0)])"
    unfolding specCatalog_def
    by (simp add: checkLoop_steps[OF gap_user] gap_counts gap_unlocked alex_fields rewards_def
        del: checkLoop.simps(2))
  then show ?thesis
    by (simp add: gap_first afterGrants_Nil)
qed

text \<open>
  Claim C6, as amended. When \<open>checkAchievements\<close> runs again right after a run, the
  second run unlocks nothing, except \<open>points_1000\<close> alone when that entry is still
  locked after the first run and the first run has left the user 1000 points or more
  (the \<open>tasks_10\<close> reward arrives after the \<open>points_1000\<close> test). The second run keeps
  every unlock record and appends one record per new unlock; a third run unlocks nothing
  and leaves the store as it is.
\<close>

theorem checkAchievements_rerun:
  assumes "findById uid (users st) = Some u"
    and "checkAchievements st uid t1 = (st1, r1)"
    and "checkAchievements st1 uid t2 = (st2, r2)"
    and "checkAchievements st2 uid t3 = (st3, r3)"
  shows "\<exists>u1 new2. findById uid (users st1) = Some u1 \<and>
       new2 = (if \<not> unlocked st1 uid ''points_1000'' \<and> 1000 \<le> points u1
               then [(points_1000, t2)] else []) \<and>
       r2 = Inr new2 \<and>
       achievements st2 = achievements st1 @
          map (\<lambda>x. \<lparr>unl_userId = uid, achievementId = ach_id (fst x), unlockedAt = snd x\<rparr>) new2 \<and>
       r3 = Inr [] \<and> st3 = st2"
proof -
  define g1 where "g1 = passGrants st uid u"
  define u1 where "u1 = u\<lparr>points := points u + rewards g1\<rparr>"
  have st1: "st1 = afterGrants st uid t1 u g1"
    using checkAchievements_closed[OF assms(1), of t1] assms(2) by (simp add: g1_def)
  have user1: "findById uid (users st1) = Some u1"
    unfolding st1 u1_def by (rule findById_afterGrants[OF assms(1)])
  define g2 where "g2 = passGrants st1 uid u1"
  have g2: "g2 = (if \<not> unlocked st1 uid ''points_1000'' \<and> 1000 \<le> points u1
               then [points_1000] else [])"
    unfolding g2_def by (rule passGrants_second[OF st1[unfolded g1_def]]) (simp add: u1_def)
  have run2: "st2 = afterGrants st1 uid t2 u1 g2" "r2 = Inr (map (\<lambda>a. (a, t2)) g2)"
    using checkAchievements_closed[OF user1, of t2] assms(3) by (simp_all add: g2_def)
  define u2 where "u2 = u1\<lparr>points := points u1 + rewards g2\<rparr>"
  have user2: "findById uid (users st2) = Some u2"
    unfolding run2 u2_def by (rule findById_afterGrants[OF user1])
  have "passGrants st2 uid u2 =
      (if \<not> unlocked st2 uid ''points_1000'' \<and> 1000 \<le> points u2 then [points_1000] else [])"
    by (rule passGrants_second[OF run2(1)[unfolded g2_def]]) (simp add: u2_def)
  also have "\<dots> = []"
    by (simp add: run2(1) unlocked_afterGrants g2 u2_def rewards_def)
  finally have g3: "passGrants st2 uid u2 = []" .
  have run3: "st3 = st2" "r3 = Inr []"
    using checkAchievements_closed[OF user2, of t3] assms(4) by (simp_all add: g3 afterGrants_Nil)
  have ach2: "achievements st2 = achievements st1 @
          map (\<lambda>x. \<lparr>unl_userId = uid, achievementId = ach_id (fst x), unlockedAt = snd x\<rparr>)
            (map (\<lambda>a. (a, t2)) g2)"
    by (simp add: run2(1) achievements_afterGrants mkUnlock_def comp_def)
  show ?thesis
    using user1 run2(2) ach2 run3 unfolding g2 by (intro exI[of _ u1] exI conjI) auto
qed

text \<open>
  Claim C6 as stated fails: from \<open>gapStore\<close> the first run unlocks \<open>tasks_10\<close>, which
  brings Alex to 1000 points, and the second run, with nothing changed in between,
  unlocks \<open>points_1000\<close>.
\<close>

theorem second_pass_counterexample:
  "snd (checkAchievements (fst (checkAchievements gapStore 21 0)) 21 1) = Inr [(points_1000, 1)]"
proof -
  define st1 where "st1 = afterGrants gapStore 21 0 alex [tasks_10]"
  have u1: "findById 21 (users st1) = Some (alex\<lparr>points := 1000\<rparr>)"
    unfolding st1_def using findById_afterGrants[OF gap_user, of 0 "[tasks_10]"]
    by (simp add: rewards_def alex_fields)
  have "passGrants st1 21 (alex\<lparr>points := 1000\<rparr>) = [points_1000]"
    using passGrants_second[of st1 gapStore 21 0 alex "alex\<lparr>points := 1000\<rparr>"]
    by (simp add: gap_pass st1_def unlocked_afterGrants gap_unlocked)
  with checkAchievements_closed[OF u1, of 1] show ?thesis
    by (simp add: gap_first st1_def)
qed

section \<open>Properties of the streak update\<close>

text \<open>
  On a host with a fixed offset to UTC, \<open>dayDiff\<close> is the whole number of local
  calendar days between the two timestamps.
\<close>

lemma dayDiff_offset:
  "dayDiff (offsetMidnight off) a b =
     of_int ((a + off) div msPerDay - (b + off) div msPerDay)"
proof -
  have m: "msPerDay \<noteq> 0" by (simp add: msPerDay_def)
  have "(a + off) - (a + off) mod msPerDay = msPerDay * ((a + off) div msPerDay)"
    "(b + off) - (b + off) mod msPerDay = msPerDay * ((b + off) div msPerDay)"
    by (simp_all add: minus_mod_eq_mult_div)
  then have eq: "offsetMidnight off a - offsetMidnight off b =
      msPerDay * ((a + off) div msPerDay - (b + off) div msPerDay)"
    by (simp add: offsetMidnight_def right_diff_distrib)
  have "dayDiff (offsetMidnight off) a b =
      of_int (offsetMidnight off a - offsetMidnight off b) / of_int msPerDay"
    by (simp only: dayDiff_def Let_def)
  also have "\<dots> = of_int (msPerDay * ((a + off) div msPerDay - (b + off) div msPerDay)) /
      of_int msPerDay"
    by (simp only: eq)
  also have "\<dots> = of_int ((a + off) div msPerDay - (b + off) div msPerDay)"
    using m by simp
  finally show ?thesis .
qed

lemma utcMidnight_offset: "utcMidnight = offsetMidnight 0"
  by (rule ext) (simp add: utcMidnight_def offsetMidnight_def)

lemma dayDiff_utc:
  "dayDiff utcMidnight a b = of_int (a div msPerDay - b div msPerDay)"
  using dayDiff_offset[of 0 a b] by (simp add: utcMidnight_offset)

text \<open>
  The login with matching credentials, for any host: the streak grows by 1 when
  \<open>dayDiff\<close> is exactly 1, becomes 1 when it is above 1, and stays otherwise;
  \<open>lastActiveDate\<close> becomes the later clock reading, and the user is saved so.
\<close>

lemma login_cases:
  assumes "find (\<lambda>u. email u = em) (users st) = Some u"
    and "compare pw (password u)"
  shows "login midnight compare st em pw tNow tSave =
     (st\<lparr>users := save_user (updateStreak midnight u tNow tSave) (users st)\<rparr>,
      Inr (updateStreak midnight u tNow tSave))"
    and "updateStreak midnight u tNow tSave =
      u\<lparr>streak := (if dayDiff midnight tNow (lastActiveDate u) = 1 then streak u + 1
                    else if dayDiff midnight tNow (lastActiveDate u) > 1 then 1
                    else streak u),
        lastActiveDate := tSave\<rparr>"
  using assms by (simp_all add: login_def updateStreak_def Let_def)

text \<open>
  Claim C4 does not hold of the code. \<open>dayDiff\<close> is the quotient of the distance of two
  local midnights by 24 hours, and is a whole number only where every local day has 24
  hours. On the New York host the clocks go forward on 10 March 2024, so the midnights of
  that day and of the next are 23 hours apart: Nora, last active on the 10th with a
  streak of 6, logs in on the 11th, \<open>dayDiff\<close> is 23/24, neither branch is taken and the
  streak stays 6. On a host in UTC the same login gives 7.
\<close>

theorem login_streak_spring_forward:
  "streak nora = 6 \<and>
   (lastActiveDate nora - 4 * 3600000) div msPerDay + 1 = (1710169200000 - 4 * 3600000) div msPerDay \<and>
   dayDiff newYorkMidnight 1710169200000 (lastActiveDate nora) = 23 / 24 \<and>
   map_sum id streak
     (snd (login newYorkMidnight (=) nyStore ''nora@test.com'' ''hash'' 1710169200000 1710169200005))
     = Inr 6 \<and>
   map_sum id streak
     (snd (login utcMidnight (=) nyStore ''nora@test.com'' ''hash'' 1710169200000 1710169200005))
     = Inr 7"
  by code_simp

section \<open>Properties of the section operations\<close>






lemma userOrders_tasks [simp]:
  "userOrders (st\<lparr>tasks := ts\<rparr>) uid = userOrders st uid"
  "userOrders (st\<lparr>subsections := ss\<rparr>) uid = userOrders st uid"
  by (simp_all add: userOrders_def)


















lemma map_of_None_filter: "map_of xs r = None \<Longrightarrow> filter (\<lambda>p. fst p \<noteq> r) xs = xs"
  by (induction xs) (auto split: if_splits)

lemma map_of_None_map:
  "map_of xs r = None \<Longrightarrow> map (\<lambda>p. if fst p = r then q else p) xs = xs"
  by (induction xs) (auto split: if_splits)

text \<open>
  A request that runs alone, from its start to its last database operation, does what
  the handler does as a whole.
\<close>

lemma runSteps_createSection:
  assumes "map_of (inflight sys) rid = None"
  shows "runSteps sys [Start rid (CreateSection uid ti ic now), Continue rid] =
         sys\<lparr>store := fst (createSection (store sys) uid ti ic now)\<rparr>"
  using assms
  by (cases "findById uid (users (store sys))")
    (simp_all add: runSteps_def createSection_def map_of_None_filter map_add_def)

lemma runSteps_deleteSection:
  assumes "map_of (inflight sys) rid = None"
  shows "runSteps sys [Start rid (DeleteSection uid sid), Continue rid, Continue rid] =
         sys\<lparr>store := fst (deleteSection (store sys) uid sid)\<rparr>"
  using assms
  by (cases "findById uid (users (store sys))")
    (simp_all add: runSteps_def deleteSection_def map_of_None_filter map_of_None_map Let_def
      map_add_def)


lemma createSection_invalid:
  "createSection emptyStore 21 (Some []) None 0 = (emptyStore, Inl ServerError)"
  "createSection emptyStore 21 None None 0 = (emptyStore, Inl ServerError)"
  by (simp_all add: createSection_def saveSection_def emptyStore_def findById_def alex_def)



text \<open>
  Claim C3 does not hold of the code. Alex, who owns nothing, deletes by id the section
  and the subsection that Bea owns: the section and the subsection documents stay, since
  their deletion names the owner, but \<open>deleteMany\<close> filters on the parent id alone and
  removes Bea's tasks and, for the section, Bea's subsection.
\<close>

theorem deleteSection_crosses_users:
  "deleteSection sharedStore 21 30 = (sharedStore\<lparr>tasks := [], subsections := []\<rparr>, Inr ()) \<and>
   deleteSubsection sharedStore 21 31 =
     (sharedStore\<lparr>tasks := [mkTask 23 30 None Pending (Some 0) 33]\<rparr>, Inr ())"
  by (simp add: deleteSection_def deleteSubsection_def sharedStore_def findById_def alex_def bea_def
      mkTask_def beaSub_def beaSection_def)

section \<open>Properties of the percentages and of the weekly heat map\<close>

text \<open>
  Claim C7 does not hold of the code. For 23 completed tasks out of 40 the exact
  percentage is 57.5, which rounds half up to 58. The source divides first: the double
  nearest to 23/40 is below 0.575, its product with 100 rounds to a double below 57.5,
  and \<open>Math.round\<close> yields 57, for the subsection and for the section of \<open>bigStore\<close>.
\<close>

theorem completionPercent_misrounds:
  "completionPercent 23 40 = 57 \<and> Math_round (100 * 23 / 40) = 58 \<and>
   map_sum id (map sv_completionPercent) (getSections bigStore 23) = Inr [57] \<and>
   map_sum id (map (map sbv_completionPercent \<circ> sv_subsections)) (getSections bigStore 23) =
     Inr [[57]]"
  by code_simp

text \<open>
  Claim C9 does not hold of the code. At 10:00 on day 10, Bea's only task is targeted at
  15:00 of the same calendar day. The query keeps only dates up to the current instant,
  so the task is not fetched and the summary of the current day counts no task.
\<close>

theorem weekly_misses_later_today:
  "utcMidnight 918000000 = utcMidnight 900000000 \<and>
   map_sum id (map total) (weekly utcMidnight lateStore 23 900000000) = Inr [0, 0, 0, 0, 0, 0, 0]"
  by code_simp

section \<open>The theorems on the example stores\<close>

lemma sprint_user: "findById 22 (users sprintStore) = Some sam"
  by (simp add: sprintStore_def findById_def sam_def)



lemma sam_fields: "points sam = 950" "streak sam = 6" "user_id sam = 22"
  "lastActiveDate sam = 849600000" "email sam = ''sam@test.com''" "password sam = ''hash''"
  by (simp_all add: sam_def)

text \<open>
  The rejection of Claim C2 for a task of Alex that is already completed.
\<close>

theorem completeTask_already_completed_witness:
  "findById 21 (users gapStore) = Some alex \<and>
   find (\<lambda>t. task_id t = 3 \<and> task_userId t = 21) (tasks gapStore) = Some (doneTask 21 3) \<and>
   status (doneTask 21 3) = Completed \<and>
   completeTask gapStore 21 3 1000 1001 1002 = (gapStore, Inl AlreadyCompleted)"
proof -
  have a: "findById 21 (users gapStore) = Some alex"
    by (rule gap_user)
  have b: "find (\<lambda>t. task_id t = 3 \<and> task_userId t = 21) (tasks gapStore) = Some (doneTask 21 3)"
    by (simp add: gapStore_def doneTask_def mkTask_def)
  have c: "status (doneTask 21 3) = Completed"
    by (simp add: doneTask_def mkTask_def)
  show ?thesis
    using a b c completeTask_already_completed[OF a b c, of 1000 1001 1002] by simp
qed


text \<open>
  The pass of Claim C5 for Sam: the \<open>first_task\<close> reward lifts 950 points to 1000, and
  \<open>points_1000\<close> unlocks in the same pass.
\<close>

theorem checkAchievements_in_source_order_witness:
  "findById 22 (users sprintStore) = Some sam \<and>
   snd (checkAchievements sprintStore 22 7) = Inr [(first_task, 7), (points_1000, 7)] \<and>
   map achievementId (achievements (fst (checkAchievements sprintStore 22 7))) =
     [''first_task'', ''points_1000''] \<and>
   findById 22 (users (fst (checkAchievements sprintStore 22 7))) = Some (sam\<lparr>points := 1300\<rparr>)"
proof -
  have c: "completedCount sprintStore 22 = 1" "earlyCount sprintStore 22 = 0"
    by (simp_all add: sprintStore_def completedCount_def earlyCount_def countDocuments_def
        doneTask_def mkTask_def reportTask_def)
  have un: "\<not> unlocked sprintStore 22 i" for i
    by (simp add: unlocked_def sprintStore_def)
  have g: "passGrants sprintStore 22 sam = [first_task, points_1000]"
    by (simp add: passGrants_def Let_def c un sam_fields rewards_def)
  have a0: "achievements sprintStore = []"
    by (simp add: sprintStore_def)
  from checkAchievements_in_source_order[OF sprint_user, of 7]
  obtain st' where run: "checkAchievements sprintStore 22 7 = (st', Inr [(first_task, 7), (points_1000, 7)])"
    and ach: "map achievementId (achievements st') = [''first_task'', ''points_1000'']"
    and pts: "findById 22 (users st') = Some (sam\<lparr>points := 1300\<rparr>)"
    by (auto simp: g sam_fields a0)
  then show ?thesis
    using sprint_user by simp
qed

text \<open>
  The runs of Claim C6 for Alex: the second run unlocks \<open>points_1000\<close>, the third nothing.
\<close>

theorem checkAchievements_rerun_witness:
  "findById 21 (users gapStore) = Some alex \<and>
   snd (checkAchievements (fst (checkAchievements gapStore 21 0)) 21 1) = Inr [(points_1000, 1)] \<and>
   snd (checkAchievements (fst (checkAchievements (fst (checkAchievements gapStore 21 0)) 21 1)) 21 2)
     = Inr []"
proof -
  define st1 where "st1 = fst (checkAchievements gapStore 21 0)"
  define st2 where "st2 = fst (checkAchievements st1 21 1)"
  have s1: "st1 = afterGrants gapStore 21 0 alex [tasks_10]"
    by (simp add: st1_def gap_first)
  have u1: "findById 21 (users st1) = Some (alex\<lparr>points := 1000\<rparr>)"
    unfolding s1 using findById_afterGrants[OF gap_user, of 0 "[tasks_10]"]
    by (simp add: rewards_def alex_fields)
  have un: "\<not> unlocked st1 21 ''points_1000''"
    by (simp add: s1 unlocked_afterGrants gap_unlocked)
  have p1: "checkAchievements gapStore 21 0 = (st1, snd (checkAchievements gapStore 21 0))"
    by (simp add: st1_def)
  have p2: "checkAchievements st1 21 1 = (st2, snd (checkAchievements st1 21 1))"
    by (simp add: st2_def)
  have p3: "checkAchievements st2 21 2 =
      (fst (checkAchievements st2 21 2), snd (checkAchievements st2 21 2))"
    by simp
  from checkAchievements_rerun[OF gap_user p1 p2 p3]
  have "snd (checkAchievements st1 21 1) = Inr [(points_1000, 1)] \<and>
        snd (checkAchievements st2 21 2) = Inr []"
    using u1 un by auto
  then show ?thesis
    using gap_user by (simp add: st1_def st2_def)
qed


end
